theory Spec2Isabelle
  imports Complex_Main "HOL-Library.AList" "HOL-Library.Code_Target_Nat"
begin

unbundle bit_operations_syntax

section \<open>Python values used by the proxy synchroniser\<close>

text \<open>
  A Python \<open>str\<close> is modelled as the list of bytes of its UTF-8 encoding, so an ASCII
  character is one \<open>char\<close> and a character beyond ASCII is several. A Python \<open>dict\<close> keeps
  its keys in insertion order: it is an association list in which assigning to a present key
  replaces the value in place and assigning to an absent key appends, which is what
  \<open>AList.update\<close> does.
\<close>

datatype ProtocolType = SS | SSR | VMESS | TROJAN | VLESS | HY2 | YAML | UNKNOWN

fun protocol_value :: "ProtocolType \<Rightarrow> string" where
  "protocol_value SS = ''ss''"
| "protocol_value SSR = ''ssr''"
| "protocol_value VMESS = ''vmess''"
| "protocol_value TROJAN = ''trojan''"
| "protocol_value VLESS = ''vless''"
| "protocol_value HY2 = ''hy2''"
| "protocol_value YAML = ''yaml''"
| "protocol_value UNKNOWN = ''unknown''"

datatype pyval = PNone | PStr string | PInt int | PBool bool | PList "pyval list"
  | PDict "(string \<times> pyval) list"

type_synonym pydict = "(string \<times> pyval) list"

text \<open>Truth value of an optional string: \<open>None\<close> and the empty string are false.\<close>

fun truthy_str :: "string option \<Rightarrow> bool" where
  "truthy_str None = False"
| "truthy_str (Some s) = (s \<noteq> [])"

text \<open>Truth value of an optional dictionary: \<open>None\<close> and the empty dictionary are false.\<close>

fun truthy_dict :: "pydict option \<Rightarrow> bool" where
  "truthy_dict None = False"
| "truthy_dict (Some d) = (d \<noteq> [])"

fun pyval_of_name :: "string option \<Rightarrow> pyval" where
  "pyval_of_name None = PNone"
| "pyval_of_name (Some s) = PStr s"

subsection \<open>Decimal rendering of an integer, as an f-string does it\<close>

fun str_of_nat :: "nat \<Rightarrow> string" where
  "str_of_nat n =
     (if n < 10 then [''0123456789'' ! n]
      else str_of_nat (n div 10) @ [''0123456789'' ! (n mod 10)])"

declare str_of_nat.simps [simp del]

definition str_of_int :: "int \<Rightarrow> string" where
  "str_of_int i = (if i < 0 then CHR ''-'' # str_of_nat (nat (- i)) else str_of_nat (nat i))"

section \<open>The source registry\<close>

text \<open>
  Timestamps are the values of \<open>time.time()\<close>. They are modelled as real numbers: the
  rounding of floating-point addition is not part of the model.
\<close>

record ProxySource =
  name :: string
  url :: string
  enabled :: bool
  protocol_hint :: "ProtocolType option"
  success_count :: int
  fail_count :: int
  last_sync :: "real option"
  last_proxy_count :: int
  sync_interval_minutes :: int
  next_sync_timestamp :: "real option"




section \<open>The proxy record\<close>

record ProxyInfo =
  ip :: string
  port :: int
  country_code :: "string option"
  name :: "string option"
  data :: "pydict option"
  protocol :: "ProtocolType option"
  source :: "string option"

definition unique_key :: "ProxyInfo \<Rightarrow> string" where
  "unique_key p = ip p @ '':'' @ str_of_int (port p)"

section \<open>Name generation\<close>

text \<open>
  \<open>RateLimitedCountryProvider.get_country_code\<close> asks an external service, catches every
  exception and returns an optional country code. The service is a parameter \<open>lookup\<close> of
  the model. \<open>ProxyNameGenerator.generate_name\<close> stores the looked-up code in the record
  when the record has none, and returns the generated name; the model returns the name
  together with the record as the call leaves it.
\<close>

definition unknown_country :: string where
  "unknown_country = [CHR 0xE6, CHR 0x9C, CHR 0xAA, CHR 0xE7, CHR 0x9F, CHR 0xA5]"

definition generate_name :: "(string \<Rightarrow> string option) \<Rightarrow> ProxyInfo \<Rightarrow> string \<times> ProxyInfo" where
  "generate_name lookup proxy_info =
     (let p = (if \<not> truthy_str (country_code proxy_info)
               then proxy_info\<lparr>country_code := lookup (ip proxy_info)\<rparr>
               else proxy_info);
          country = (if truthy_str (country_code p) then the (country_code p)
                     else unknown_country)
      in (country @ ''|'' @ unique_key p, p))"

section \<open>The merger\<close>

text \<open>
  \<open>ProxyMerger.merge_proxies\<close> keeps a dictionary from keys to record objects and mutates
  the stored objects in place. The model passes the dictionary and the statistics through
  the loop and holds the records by value: every record owns its data dictionary, as the
  callers build them (one dictionary per parsed or loaded proxy).
\<close>

record merge_stats =
  added :: nat
  updated :: nat
  total_new_incoming :: nat
  by_protocol :: "(string \<times> nat) list"
  by_source :: "(string \<times> nat) list"

text \<open>\<open>d[k] = d.get(k, 0) + 1\<close>\<close>

definition bump :: "(string \<times> nat) list \<Rightarrow> string \<Rightarrow> (string \<times> nat) list" where
  "bump d k = AList.update k ((case map_of d k of None \<Rightarrow> 0 | Some c \<Rightarrow> c) + 1) d"

text \<open>The counters of the incoming record, bumped before the record is merged.\<close>

definition count_incoming :: "merge_stats \<Rightarrow> ProxyInfo \<Rightarrow> merge_stats" where
  "count_incoming stats c =
     (let s1 = (case protocol c of
                  Some pr \<Rightarrow> stats\<lparr>by_protocol := bump (by_protocol stats) (protocol_value pr)\<rparr>
                | None \<Rightarrow> stats)
      in if truthy_str (source c)
         then s1\<lparr>by_source := bump (by_source s1) (the (source c))\<rparr>
         else s1)"

text \<open>
  Case 1 of the loop body: the stored record is overwritten field by field with the
  candidate's fields (as \<open>generate_name\<close> left them); its name is not assigned from the
  candidate, and when the stored name is non-empty it is written back, also into the
  \<open>name\<close> entry of the data dictionary if the dictionary is non-empty and has one.
\<close>

definition overwrite_existing :: "ProxyInfo \<Rightarrow> ProxyInfo \<Rightarrow> ProxyInfo" where
  "overwrite_existing existing_proxy_obj c =
     (let original_name = name existing_proxy_obj;
          e1 = existing_proxy_obj\<lparr>ip := ip c, port := port c, country_code := country_code c,
                 protocol := protocol c, source := source c, data := data c\<rparr>
      in if truthy_str original_name
         then (let e2 = e1\<lparr>name := original_name\<rparr>
               in if truthy_dict (data e2) \<and> map_of (the (data e2)) ''name'' \<noteq> None
                  then e2\<lparr>data := Some (AList.update ''name'' (pyval_of_name original_name)
                                           (the (data e2)))\<rparr>
                  else e2)
         else e1)"

text \<open>Case 2 of the loop body: a new record gets its own name written into its data.\<close>

definition prepare_new :: "ProxyInfo \<Rightarrow> ProxyInfo" where
  "prepare_new c =
     (if truthy_dict (data c)
      then c\<lparr>data := Some (AList.update ''name'' (pyval_of_name (name c)) (the (data c)))\<rparr>
      else c)"

type_synonym proxy_map = "(string \<times> ProxyInfo) list"

definition merge_one :: "(string \<Rightarrow> string option) \<Rightarrow> proxy_map \<times> merge_stats \<Rightarrow> ProxyInfo
    \<Rightarrow> proxy_map \<times> merge_stats" where
  "merge_one lookup ms new_proxy_candidate =
     (let merged_proxies_map = fst ms;
          stats = count_incoming (snd ms) new_proxy_candidate;
          key = unique_key new_proxy_candidate
      in case map_of merged_proxies_map key of
           Some existing_proxy_obj \<Rightarrow>
             (let c = snd (generate_name lookup new_proxy_candidate)
              in (AList.update key (overwrite_existing existing_proxy_obj c) merged_proxies_map,
                  stats\<lparr>updated := updated stats + 1\<rparr>))
         | None \<Rightarrow>
             (let c = snd (generate_name lookup new_proxy_candidate)
              in (AList.update key (prepare_new c) merged_proxies_map,
                  stats\<lparr>added := added stats + 1\<rparr>)))"

text \<open>\<open>{p.unique_key: p for p in existing_proxies}\<close>\<close>

definition index_existing :: "ProxyInfo list \<Rightarrow> proxy_map" where
  "index_existing existing_proxies =
     fold (\<lambda>p m. AList.update (unique_key p) p m) existing_proxies []"

definition initial_stats :: "ProxyInfo list \<Rightarrow> merge_stats" where
  "initial_stats new_proxies =
     \<lparr>added = 0, updated = 0, total_new_incoming = length new_proxies,
      by_protocol = [], by_source = []\<rparr>"

definition merge_loop :: "(string \<Rightarrow> string option) \<Rightarrow> ProxyInfo list
    \<Rightarrow> proxy_map \<times> merge_stats \<Rightarrow> proxy_map \<times> merge_stats" where
  "merge_loop lookup new_proxies ms = fold (\<lambda>c s. merge_one lookup s c) new_proxies ms"

definition merge_proxies :: "(string \<Rightarrow> string option) \<Rightarrow> ProxyInfo list \<Rightarrow> ProxyInfo list
    \<Rightarrow> ProxyInfo list \<times> merge_stats" where
  "merge_proxies lookup existing_proxies new_proxies =
     (let ms = merge_loop lookup new_proxies
                 (index_existing existing_proxies, initial_stats new_proxies)
      in (map snd (fst ms), snd ms))"

subsection \<open>Notions used to state the merger's properties\<close>

text \<open>
  The map built by the merger is well keyed when no key occurs twice and every record is
  stored under its own \<open>unique_key\<close>.
\<close>

definition keyed :: "proxy_map \<Rightarrow> bool" where
  "keyed m \<longleftrightarrow> distinct (map fst m) \<and> (\<forall>kv \<in> set m. unique_key (snd kv) = fst kv)"

text \<open>The records of a list that carry a given key, in list order.\<close>

definition records_at :: "string \<Rightarrow> ProxyInfo list \<Rightarrow> ProxyInfo list" where
  "records_at k ps = filter (\<lambda>p. unique_key p = k) ps"

subsection \<open>Concrete records\<close>

text \<open>
  The records of the specification's merge scenario (one stored record named \<open>Old\<close>, one
  incoming record with an empty name on the same endpoint), an unnamed stored duplicate, and
  two incoming records from different sources that list the same endpoint. \<open>no_lookup\<close>
  is a country service that never answers.
\<close>

definition no_lookup :: "string \<Rightarrow> string option" where
  "no_lookup a = None"

definition scenario_existing :: ProxyInfo where
  "scenario_existing = \<lparr>ip = ''1.1.1.1'', port = 443, country_code = None, name = Some ''Old'',
     data = None, protocol = None, source = None\<rparr>"

definition scenario_incoming :: ProxyInfo where
  "scenario_incoming = \<lparr>ip = ''1.1.1.1'', port = 443, country_code = None, name = Some [],
     data = None, protocol = None, source = None\<rparr>"

definition unnamed_existing :: ProxyInfo where
  "unnamed_existing = \<lparr>ip = ''1.1.1.1'', port = 443, country_code = None, name = Some [],
     data = None, protocol = None, source = None\<rparr>"

definition first_incoming :: ProxyInfo where
  "first_incoming = \<lparr>ip = ''1.1.1.1'', port = 443, country_code = None, name = Some [],
     data = Some [(''name'', PStr ''New''), (''type'', PStr ''ss'')], protocol = Some SS, source = Some ''a''\<rparr>"

definition second_incoming :: ProxyInfo where
  "second_incoming = \<lparr>ip = ''1.1.1.1'', port = 443, country_code = None, name = Some [],
     data = Some [(''name'', PStr ''Other''), (''type'', PStr ''trojan'')], protocol = Some TROJAN, source = Some ''b''\<rparr>"

section \<open>String operations of the Python library\<close>

text \<open>\<open>s.startswith(p)\<close>\<close>

definition startswith :: "string \<Rightarrow> string \<Rightarrow> bool" where
  "startswith s p = (take (length p) s = p)"

text \<open>\<open>p in s\<close>\<close>

fun contains :: "string \<Rightarrow> string \<Rightarrow> bool" where
  "contains p [] = (p = [])"
| "contains p (c # cs) = (startswith (c # cs) p \<or> contains p cs)"

text \<open>
  \<open>s.replace(old, new)\<close>: the occurrences of \<open>old\<close> are replaced from left to right without
  overlap; an empty \<open>old\<close> matches before every character and at the end.
\<close>

function str_replace :: "string \<Rightarrow> string \<Rightarrow> string \<Rightarrow> string" where
  "str_replace old new s =
     (if old = [] then new @ concat (map (\<lambda>c. c # new) s)
      else if s = [] then []
      else if startswith s old then new @ str_replace old new (drop (length old) s)
      else hd s # str_replace old new (tl s))"
  by pat_completeness auto
termination
  by (relation "measure (\<lambda>(old, new, s). length s)") auto

declare str_replace.simps [simp del]

text \<open>\<open>s.strip(chars)\<close>\<close>

definition strip_chars :: "string \<Rightarrow> string \<Rightarrow> string" where
  "strip_chars chars s =
     rev (dropWhile (\<lambda>c. c \<in> set chars) (rev (dropWhile (\<lambda>c. c \<in> set chars) s)))"

section \<open>Cleaning node names\<close>

definition vip_patterns :: "string list" where
  "vip_patterns = [''VIP'', ''vip'', ''Vip'', ''ViP'', ''vIp'', ''viP'', ''vIP'', ''VIp'']"

text \<open>The loop of \<open>_clean_vip_chars\<close> that deletes each pattern in turn.\<close>

definition remove_vip :: "string \<Rightarrow> string" where
  "remove_vip nm = fold (\<lambda>pattern cleaned_name. str_replace pattern [] cleaned_name) vip_patterns nm"

definition clean_vip_chars :: "string \<Rightarrow> string" where
  "clean_vip_chars nm =
     (if nm = [] then nm
      else (let cleaned_name = strip_chars '' -_|'' (remove_vip nm)
            in if cleaned_name \<noteq> [] then cleaned_name else nm))"

section \<open>Base64 and UTF-8 decoding of the Python library\<close>

definition b64_alphabet :: string where
  "b64_alphabet = ''ABCDEFGHIJKLMNOPQRSTUVWXYZabcdefghijklmnopqrstuvwxyz0123456789+/''"

fun find_index :: "char \<Rightarrow> string \<Rightarrow> nat \<Rightarrow> nat option" where
  "find_index x [] i = None"
| "find_index x (y # ys) i = (if x = y then Some i else find_index x ys (i + 1))"

text \<open>The value of a character of the alphabet; \<open>None\<close> for every other character.\<close>

definition table_a2b_base64 :: "char \<Rightarrow> nat option" where
  "table_a2b_base64 c = find_index c b64_alphabet 0"

text \<open>
  \<open>binascii.a2b_base64\<close> without strict mode, as \<open>base64.b64decode\<close> calls it. Characters
  outside the alphabet are skipped. A pad character counts only once two characters of the
  current group of four have been read, and completing the group with pads ends the decoding:
  whatever follows is not read. Running out of input inside a group is an error (\<open>None\<close>).
  \<open>leftchar\<close> holds the bits of the group not yet written.
\<close>

fun a2b_base64 :: "string \<Rightarrow> nat \<Rightarrow> nat \<Rightarrow> nat \<Rightarrow> nat list \<Rightarrow> nat list option" where
  "a2b_base64 [] quad_pos leftchar pads bin_data =
     (if quad_pos \<noteq> 0 then None else Some bin_data)"
| "a2b_base64 (this_ch # rest) quad_pos leftchar pads bin_data =
     (if this_ch = CHR ''='' then
        (if quad_pos \<ge> 2 \<and> quad_pos + (pads + 1) \<ge> 4 then Some bin_data
         else a2b_base64 rest quad_pos leftchar (if quad_pos \<ge> 2 then pads + 1 else pads) bin_data)
      else
        (case table_a2b_base64 this_ch of
           None \<Rightarrow> a2b_base64 rest quad_pos leftchar pads bin_data
         | Some v \<Rightarrow>
             (if quad_pos = 0 then a2b_base64 rest 1 v 0 bin_data
              else if quad_pos = 1 then
                a2b_base64 rest 2 (v AND 0x0f) 0 (bin_data @ [push_bit 2 leftchar OR drop_bit 4 v])
              else if quad_pos = 2 then
                a2b_base64 rest 3 (v AND 0x03) 0 (bin_data @ [push_bit 4 leftchar OR drop_bit 2 v])
              else
                a2b_base64 rest 0 0 0 (bin_data @ [push_bit 6 leftchar OR v]))))"

text \<open>
  A \<open>str\<close> argument is first encoded as ASCII, which fails when it has a character beyond
  ASCII, that is, a byte of \<open>0x80\<close> or more in its UTF-8 encoding.
\<close>

definition ascii_only :: "string \<Rightarrow> bool" where
  "ascii_only s = list_all (\<lambda>c. (of_char c :: nat) < 128) s"

definition b64decode :: "string \<Rightarrow> nat list option" where
  "b64decode s = (if ascii_only s then a2b_base64 s 0 0 0 [] else None)"

definition urlsafe_translate :: "char \<Rightarrow> char" where
  "urlsafe_translate c = (if c = CHR ''-'' then CHR ''+'' else if c = CHR ''_'' then CHR ''/'' else c)"

definition urlsafe_b64decode :: "string \<Rightarrow> nat list option" where
  "urlsafe_b64decode s = (if ascii_only s then a2b_base64 (map urlsafe_translate s) 0 0 0 [] else None)"

text \<open>Well-formed UTF-8: no overlong form, no surrogate, nothing above \<open>U+10FFFF\<close>.\<close>

definition utf8_cont :: "nat \<Rightarrow> bool" where
  "utf8_cont b = (0x80 \<le> b \<and> b \<le> 0xBF)"

fun utf8_valid :: "nat list \<Rightarrow> bool" where
  "utf8_valid [] = True"
| "utf8_valid (b # bs) =
     (if b < 0x80 then utf8_valid bs
      else if 0xC2 \<le> b \<and> b \<le> 0xDF then
        (case bs of c1 # r \<Rightarrow> utf8_cont c1 \<and> utf8_valid r | _ \<Rightarrow> False)
      else if 0xE0 \<le> b \<and> b \<le> 0xEF then
        (case bs of
           c1 # c2 # r \<Rightarrow>
             (if b = 0xE0 then 0xA0 \<le> c1 \<and> c1 \<le> 0xBF
              else if b = 0xED then 0x80 \<le> c1 \<and> c1 \<le> 0x9F
              else utf8_cont c1)
             \<and> utf8_cont c2 \<and> utf8_valid r
         | _ \<Rightarrow> False)
      else if 0xF0 \<le> b \<and> b \<le> 0xF4 then
        (case bs of
           c1 # c2 # c3 # r \<Rightarrow>
             (if b = 0xF0 then 0x90 \<le> c1 \<and> c1 \<le> 0xBF
              else if b = 0xF4 then 0x80 \<le> c1 \<and> c1 \<le> 0x8F
              else utf8_cont c1)
             \<and> utf8_cont c2 \<and> utf8_cont c3 \<and> utf8_valid r
         | _ \<Rightarrow> False)
      else False)"

text \<open>\<open>bytes.decode('utf-8')\<close>: the text with the same UTF-8 bytes, or an error.\<close>

definition decode_utf8 :: "nat list \<Rightarrow> string option" where
  "decode_utf8 bs = (if utf8_valid bs then Some (map char_of bs) else None)"

section \<open>Whitespace and case\<close>

text \<open>
  The characters \<open>str.strip()\<close> removes, as UTF-8 byte sequences: the ASCII controls
  \<open>0x09\<close> to \<open>0x0D\<close> and \<open>0x1C\<close> to \<open>0x1F\<close>, the space, \<open>U+0085\<close>, \<open>U+00A0\<close>, \<open>U+1680\<close>,
  \<open>U+2000\<close> to \<open>U+200A\<close>, \<open>U+2028\<close>, \<open>U+2029\<close>, \<open>U+202F\<close>, \<open>U+205F\<close> and \<open>U+3000\<close>.
\<close>

definition whitespace :: "string list" where
  "whitespace =
     [[CHR 0x09], [CHR 0x0A], [CHR 0x0B], [CHR 0x0C], [CHR 0x0D],
      [CHR 0x1C], [CHR 0x1D], [CHR 0x1E], [CHR 0x1F], [CHR 0x20],
      [CHR 0xC2, CHR 0x85], [CHR 0xC2, CHR 0xA0], [CHR 0xE1, CHR 0x9A, CHR 0x80],
      [CHR 0xE2, CHR 0x80, CHR 0x80], [CHR 0xE2, CHR 0x80, CHR 0x81],
      [CHR 0xE2, CHR 0x80, CHR 0x82], [CHR 0xE2, CHR 0x80, CHR 0x83],
      [CHR 0xE2, CHR 0x80, CHR 0x84], [CHR 0xE2, CHR 0x80, CHR 0x85],
      [CHR 0xE2, CHR 0x80, CHR 0x86], [CHR 0xE2, CHR 0x80, CHR 0x87],
      [CHR 0xE2, CHR 0x80, CHR 0x88], [CHR 0xE2, CHR 0x80, CHR 0x89],
      [CHR 0xE2, CHR 0x80, CHR 0x8A], [CHR 0xE2, CHR 0x80, CHR 0xA8],
      [CHR 0xE2, CHR 0x80, CHR 0xA9], [CHR 0xE2, CHR 0x80, CHR 0xAF],
      [CHR 0xE2, CHR 0x81, CHR 0x9F], [CHR 0xE3, CHR 0x80, CHR 0x80]]"

text \<open>The text after a leading character of the given list, if it starts with one.\<close>

fun drop_one_of :: "string list \<Rightarrow> string \<Rightarrow> string option" where
  "drop_one_of [] s = None"
| "drop_one_of (w # ws) s =
     (if w \<noteq> [] \<and> startswith s w then Some (drop (length w) s) else drop_one_of ws s)"

lemma drop_one_of_shorter: "drop_one_of ws s = Some r \<Longrightarrow> length r < length s"
proof (induction ws)
  case Nil
  then show ?case by simp
next
  case (Cons w ws)
  show ?case
  proof (cases "w \<noteq> [] \<and> startswith s w")
    case True
    with Cons.prems have r: "r = drop (length w) s" by simp
    from True have "take (length w) s = w" by (simp add: startswith_def)
    with True have "s \<noteq> []" by auto
    with True r show ?thesis by (cases w) simp_all
  next
    case False
    with Cons show ?thesis by simp
  qed
qed

function lstrip_seqs :: "string list \<Rightarrow> string \<Rightarrow> string" where
  "lstrip_seqs ws s = (case drop_one_of ws s of None \<Rightarrow> s | Some r \<Rightarrow> lstrip_seqs ws r)"
  by pat_completeness auto
termination
  by (relation "measure (\<lambda>(ws, s). length s)") (auto dest: drop_one_of_shorter)

declare lstrip_seqs.simps [simp del]

text \<open>\<open>s.strip()\<close>: leading whitespace is dropped, then trailing whitespace.\<close>

definition py_strip :: "string \<Rightarrow> string" where
  "py_strip s = rev (lstrip_seqs (map rev whitespace) (rev (lstrip_seqs whitespace s)))"

text \<open>
  \<open>s.lower()\<close> on the ASCII letters. Lowering a character beyond ASCII never produces the
  letters of a scheme prefix followed directly by its next letter, so the tests below, which
  only look for ASCII patterns in the lowered text, come out the same.
\<close>

definition lower_char :: "char \<Rightarrow> char" where
  "lower_char c =
     (let n = (of_char c :: nat) in if 65 \<le> n \<and> n \<le> 90 then char_of (n + 32) else c)"

definition lower :: "string \<Rightarrow> string" where
  "lower s = map lower_char s"

section \<open>Base64 normalisation\<close>

definition protocol_patterns :: "string list" where
  "protocol_patterns =
     [''ss://'', ''ssr://'', ''vmess://'', ''vless://'', ''trojan://'',
      ''hy2://'', ''hysteria2://'', ''proxies:'']"

definition contains_protocol_identifier :: "string \<Rightarrow> bool" where
  "contains_protocol_identifier decoded_str =
     list_ex (\<lambda>proto. contains proto (lower decoded_str)) protocol_patterns"

text \<open>The four decoding attempts, in the order in which they are tried.\<close>

definition decode_methods :: "(string \<Rightarrow> nat list option) list" where
  "decode_methods =
     [\<lambda>d. b64decode d,
      \<lambda>d. urlsafe_b64decode (d @ ''==''),
      \<lambda>d. b64decode (d @ ''==''),
      \<lambda>d. b64decode (str_replace [CHR 0x0D] [] (str_replace [CHR 0x0A] [] d))]"

text \<open>
  One attempt: the decoded text when the bytes decode, are UTF-8 and hold a protocol
  identifier; \<open>None\<close> when the attempt raises or the text holds no identifier.
\<close>

definition attempt :: "(string \<Rightarrow> nat list option) \<Rightarrow> string \<Rightarrow> string option" where
  "attempt decode_method original_content =
     (case decode_method original_content of
        None \<Rightarrow> None
      | Some decoded_bytes \<Rightarrow>
          (case decode_utf8 decoded_bytes of
             None \<Rightarrow> None
           | Some decoded_str \<Rightarrow>
               if contains_protocol_identifier decoded_str then Some decoded_str else None))"

fun try_methods :: "(string \<Rightarrow> nat list option) list \<Rightarrow> string \<Rightarrow> string" where
  "try_methods [] original_content = original_content"
| "try_methods (decode_method # ms) original_content =
     (case attempt decode_method original_content of
        Some decoded_str \<Rightarrow> py_strip decoded_str
      | None \<Rightarrow> try_methods ms original_content)"

definition try_base64_decode :: "string \<Rightarrow> string" where
  "try_base64_decode content = try_methods decode_methods (py_strip content)"

section \<open>Protocol detection\<close>

text \<open>
  The regular expressions of the frequency scan are \<open>\b\<close> followed by a scheme (or one of
  several schemes) and \<open>://\<close>, matched without regard to case. Such a match starts at a
  position that is the start of the text or follows a character that is not a word character,
  and two matches never overlap, so \<open>finditer\<close> yields one match for each such position. Word
  characters are the ASCII letters and digits and the underscore; a byte beyond ASCII is taken
  as part of a word character, as the letters of other scripts are. Case is folded on the
  ASCII letters.
\<close>

definition is_word_char :: "char \<Rightarrow> bool" where
  "is_word_char c =
     (let n = (of_char c :: nat)
      in (48 \<le> n \<and> n \<le> 57) \<or> (65 \<le> n \<and> n \<le> 90) \<or> (97 \<le> n \<and> n \<le> 122) \<or> n = 95 \<or> 128 \<le> n)"

definition startswith_ci :: "string \<Rightarrow> string \<Rightarrow> bool" where
  "startswith_ci s p = (lower (take (length p) s) = p)"

fun count_matches :: "string list \<Rightarrow> bool \<Rightarrow> string \<Rightarrow> int" where
  "count_matches alts after_word [] = 0"
| "count_matches alts after_word (c # cs) =
     (if \<not> after_word \<and> list_ex (\<lambda>a. startswith_ci (c # cs) a) alts then 1 else 0)
     + count_matches alts (is_word_char c) cs"

definition finditer_count :: "string list \<Rightarrow> string \<Rightarrow> int" where
  "finditer_count alts s = count_matches alts False s"

definition protocol_counts :: "string \<Rightarrow> (ProtocolType \<times> int) list" where
  "protocol_counts content_to_check =
     [(VLESS, finditer_count [''vless://''] content_to_check),
      (VMESS, finditer_count [''vmess://''] content_to_check),
      (TROJAN, finditer_count [''trojan://''] content_to_check),
      (SSR, finditer_count [''ssr://''] content_to_check),
      (SS, finditer_count [''ss://''] content_to_check
           - finditer_count [''vless://'', ''vmess://'', ''ssr://''] content_to_check),
      (HY2, finditer_count [''hy2://'', ''hysteria2://''] content_to_check)]"

definition priority_order :: "ProtocolType list" where
  "priority_order = [VLESS, VMESS, TROJAN, SSR, SS, HY2]"

definition count_of :: "(ProtocolType \<times> int) list \<Rightarrow> ProtocolType \<Rightarrow> int" where
  "count_of counts p = (case map_of counts p of None \<Rightarrow> 0 | Some c \<Rightarrow> c)"

text \<open>\<open>max\<close> of a non-empty list of counts.\<close>

definition max_count_of :: "(ProtocolType \<times> int) list \<Rightarrow> int" where
  "max_count_of counts = fold max (map snd counts) (snd (hd counts))"

text \<open>The tests of \<open>detect_protocol\<close> on the decoded and trimmed text.\<close>

definition is_yaml :: "string \<Rightarrow> bool" where
  "is_yaml content_to_check =
     (contains ''proxies:'' content_to_check
      \<or> (startswith content_to_check ''-'' \<and> contains ''server:'' content_to_check)
      \<or> (contains ''name:'' content_to_check \<and> contains ''server:'' content_to_check
          \<and> contains ''port:'' content_to_check))"

definition frequency_scan :: "string \<Rightarrow> ProtocolType" where
  "frequency_scan content_to_check =
     (let counts = protocol_counts content_to_check;
          max_count = max_count_of counts
      in if max_count > 0
         then (case find (\<lambda>p. count_of counts p > 0) priority_order of
                 Some p \<Rightarrow> p
               | None \<Rightarrow> UNKNOWN)
         else UNKNOWN)"

definition classify :: "string \<Rightarrow> ProtocolType" where
  "classify content_to_check =
     (if startswith content_to_check ''vless://'' then VLESS
      else if startswith content_to_check ''vmess://'' then VMESS
      else if startswith content_to_check ''trojan://'' then TROJAN
      else if startswith content_to_check ''hy2://'' \<or> startswith content_to_check ''hysteria2://''
        then HY2
      else if startswith content_to_check ''ssr://'' then SSR
      else if startswith content_to_check ''ss://'' then SS
      else if is_yaml content_to_check then YAML
      else frequency_scan content_to_check)"

definition detect_protocol :: "string \<Rightarrow> ProtocolType" where
  "detect_protocol content = classify (py_strip (try_base64_decode content))"

section \<open>Splitting and number parsing\<close>

text \<open>
  \<open>s.split(sep, 1)\<close> for a separator that occurs in \<open>s\<close>: the text before and after the
  first occurrence; \<open>None\<close> when \<open>sep\<close> does not occur. The separator is never empty.
\<close>

fun split_once :: "string \<Rightarrow> string \<Rightarrow> (string \<times> string) option" where
  "split_once sep [] = None"
| "split_once sep (c # cs) =
     (if startswith (c # cs) sep then Some ([], drop (length sep) (c # cs))
      else map_option (\<lambda>(a, b). (c # a, b)) (split_once sep cs))"

text \<open>\<open>s.rsplit(sep, 1)\<close>: the same at the last occurrence.\<close>

definition rsplit_once :: "string \<Rightarrow> string \<Rightarrow> (string \<times> string) option" where
  "rsplit_once sep s = map_option (\<lambda>(a, b). (rev b, rev a)) (split_once (rev sep) (rev s))"


text \<open>
  \<open>int(s)\<close> on a string: surrounding whitespace is dropped, a sign may lead, and a single
  underscore may stand between two digits. Decimal digits beyond ASCII, which Python also
  accepts, and the interpreter's limit on the length of a decimal string are not modelled:
  the first is an error here.
\<close>

definition is_digit :: "char \<Rightarrow> bool" where
  "is_digit c = (let n = (of_char c :: nat) in 48 \<le> n \<and> n \<le> 57)"

fun int_body :: "string \<Rightarrow> bool \<Rightarrow> nat \<Rightarrow> nat option" where
  "int_body [] after_digit acc = (if after_digit then Some acc else None)"
| "int_body (c # cs) after_digit acc =
     (if is_digit c then int_body cs True (acc * 10 + (of_char c - 48))
      else if c = CHR ''_'' \<and> after_digit \<and> cs \<noteq> [] \<and> is_digit (hd cs) then int_body cs False acc
      else None)"

definition py_int :: "string \<Rightarrow> int option" where
  "py_int s =
     (case py_strip s of
        [] \<Rightarrow> None
      | c # cs \<Rightarrow>
          if c = CHR ''-'' then map_option (\<lambda>n. - int n) (int_body cs False 0)
          else if c = CHR ''+'' then map_option int (int_body cs False 0)
          else map_option int (int_body (c # cs) False 0))"

section \<open>Percent-decoding\<close>

definition hexdig :: string where
  "hexdig = ''0123456789ABCDEFabcdef''"

definition hex_value :: "char \<Rightarrow> nat" where
  "hex_value c =
     (let n = (of_char c :: nat)
      in if n \<le> 57 then n - 48 else if n \<le> 70 then n - 55 else n - 87)"

text \<open>
  \<open>urllib.parse.unquote_to_bytes\<close>: a percent sign followed by two hexadecimal digits
  becomes the byte they name; any other percent sign stays.
\<close>

fun unquote_to_bytes :: "string \<Rightarrow> nat list" where
  "unquote_to_bytes [] = []"
| "unquote_to_bytes (c # cs) =
     (if c = CHR ''%'' then
        (case cs of
           h1 # h2 # r \<Rightarrow>
             if h1 \<in> set hexdig \<and> h2 \<in> set hexdig
             then (16 * hex_value h1 + hex_value h2) # unquote_to_bytes r
             else 37 # unquote_to_bytes cs
         | _ \<Rightarrow> 37 # unquote_to_bytes cs)
      else of_char c # unquote_to_bytes cs)"

text \<open>
  \<open>bytes.decode('utf-8', 'replace')\<close>, giving the UTF-8 bytes of the decoded text: each
  ill-formed part (a byte that cannot start a character, or the longest start of a character
  that its next byte does not continue, or a character cut off by the end) becomes \<open>U+FFFD\<close>.
\<close>

definition replacement_char :: "nat list" where
  "replacement_char = [0xEF, 0xBF, 0xBD]"

definition utf8_second :: "nat \<Rightarrow> nat \<Rightarrow> bool" where
  "utf8_second b c1 =
     (if b = 0xE0 then 0xA0 \<le> c1 \<and> c1 \<le> 0xBF
      else if b = 0xED then 0x80 \<le> c1 \<and> c1 \<le> 0x9F
      else if b = 0xF0 then 0x90 \<le> c1 \<and> c1 \<le> 0xBF
      else if b = 0xF4 then 0x80 \<le> c1 \<and> c1 \<le> 0x8F
      else utf8_cont c1)"

fun utf8_replace :: "nat list \<Rightarrow> nat list" where
  "utf8_replace [] = []"
| "utf8_replace (b # bs) =
     (if b < 0x80 then b # utf8_replace bs
      else if b < 0xC2 \<or> 0xF4 < b then replacement_char @ utf8_replace bs
      else if b < 0xE0 then
        (case bs of
           [] \<Rightarrow> replacement_char
         | c1 # r1 \<Rightarrow>
             if utf8_cont c1 then b # c1 # utf8_replace r1
             else replacement_char @ utf8_replace bs)
      else if b < 0xF0 then
        (case bs of
           [] \<Rightarrow> replacement_char
         | c1 # r1 \<Rightarrow>
             if \<not> utf8_second b c1 then replacement_char @ utf8_replace bs
             else (case r1 of
                     [] \<Rightarrow> replacement_char
                   | c2 # r2 \<Rightarrow>
                       if utf8_cont c2 then b # c1 # c2 # utf8_replace r2
                       else replacement_char @ utf8_replace r1))
      else
        (case bs of
           [] \<Rightarrow> replacement_char
         | c1 # r1 \<Rightarrow>
             if \<not> utf8_second b c1 then replacement_char @ utf8_replace bs
             else (case r1 of
                     [] \<Rightarrow> replacement_char
                   | c2 # r2 \<Rightarrow>
                       if \<not> utf8_cont c2 then replacement_char @ utf8_replace r1
                       else (case r2 of
                               [] \<Rightarrow> replacement_char
                             | c3 # r3 \<Rightarrow>
                                 if utf8_cont c3 then b # c1 # c2 # c3 # utf8_replace r3
                                 else replacement_char @ utf8_replace r2))))"

definition is_ascii :: "char \<Rightarrow> bool" where
  "is_ascii c = ((of_char c :: nat) < 128)"

text \<open>
  \<open>urllib.parse.unquote\<close>: a text without a percent sign is returned as it is; otherwise
  every maximal run of ASCII characters is percent-decoded and decoded as UTF-8 with
  replacement, and the characters beyond ASCII between the runs are kept.
\<close>

function unquote_runs :: "string \<Rightarrow> string" where
  "unquote_runs s =
     (if s = [] then []
      else if is_ascii (hd s) then
        map char_of (utf8_replace (unquote_to_bytes (takeWhile is_ascii s)))
          @ unquote_runs (dropWhile is_ascii s)
      else takeWhile (\<lambda>c. \<not> is_ascii c) s @ unquote_runs (dropWhile (\<lambda>c. \<not> is_ascii c) s))"
  by pat_completeness auto
termination
proof (relation "measure length")
  show "wf (measure length)" by simp
next
  fix s :: string
  assume "s \<noteq> []" and "is_ascii (hd s)"
  then have "length (dropWhile is_ascii s) < length s"
    by (cases s) (simp_all add: length_dropWhile_le le_imp_less_Suc)
  then show "(dropWhile is_ascii s, s) \<in> measure length" by simp
next
  fix s :: string
  assume "s \<noteq> []" and "\<not> is_ascii (hd s)"
  then have "length (dropWhile (\<lambda>c. \<not> is_ascii c) s) < length s"
    by (cases s) (simp_all add: length_dropWhile_le le_imp_less_Suc)
  then show "(dropWhile (\<lambda>c. \<not> is_ascii c) s, s) \<in> measure length" by simp
qed

declare unquote_runs.simps [simp del]

definition unquote :: "string \<Rightarrow> string" where
  "unquote s = (if CHR ''%'' \<notin> set s then s else unquote_runs s)"

section \<open>The SS and SSR decoders\<close>

text \<open>The default names \<open>SS\<close> and \<open>SSR\<close> followed by the two characters \<open>U+8282 U+70B9\<close>.\<close>

definition default_ss_name :: string where
  "default_ss_name = ''SS'' @ [CHR 0xE8, CHR 0x8A, CHR 0x82, CHR 0xE7, CHR 0x82, CHR 0xB9]"


text \<open>A decoding attempt followed by \<open>.decode('utf-8')\<close>; \<open>None\<close> when either raises.\<close>

definition decode_text :: "(string \<Rightarrow> nat list option) \<Rightarrow> string \<Rightarrow> string option" where
  "decode_text decode_method s = Option.bind (decode_method s) decode_utf8"

text \<open>The name and the body of an SS link after its prefix.\<close>

definition ss_fragment :: "string \<Rightarrow> string \<times> string" where
  "ss_fragment ss_content =
     (case split_once ''#'' ss_content of
        Some (body, fragment) \<Rightarrow> (body, clean_vip_chars (unquote fragment))
      | None \<Rightarrow> (ss_content, default_ss_name))"

definition parse_ss_url :: "string \<Rightarrow> pydict option" where
  "parse_ss_url ss_url =
     (if \<not> startswith ss_url ''ss://'' then None
      else
        (let ss_content = drop 5 ss_url;
             (ss_content, nm) = ss_fragment ss_content
         in case (case decode_text b64decode (ss_content @ ''=='') of
                    Some d \<Rightarrow> Some d
                  | None \<Rightarrow> decode_text urlsafe_b64decode (ss_content @ ''=='')) of
              None \<Rightarrow> None
            | Some decoded \<Rightarrow>
                (case split_once ''@'' decoded of
                   None \<Rightarrow> None
                 | Some (method_password, server_port) \<Rightarrow>
                     (case split_once '':'' method_password of
                        None \<Rightarrow> None
                      | Some (method, password) \<Rightarrow>
                          (case rsplit_once '':'' server_port of
                             None \<Rightarrow> None
                           | Some (server, port_str) \<Rightarrow>
                               (case py_int port_str of
                                  None \<Rightarrow> None
                                | Some port_num \<Rightarrow>
                                    Some [(''name'', PStr nm), (''type'', PStr ''ss''),
                                          (''server'', PStr server), (''port'', PInt port_num),
                                          (''cipher'', PStr method),
                                          (''password'', PStr password)]))))))"







section \<open>Notions and inputs used to state the decoding properties\<close>

text \<open>None of the four attempts of \<open>try_base64_decode\<close> yields a text with an identifier.\<close>

definition no_attempt_qualifies :: "string \<Rightarrow> bool" where
  "no_attempt_qualifies content =
     list_all (\<lambda>decode_method. attempt decode_method (py_strip content) = None) decode_methods"

text \<open>A text in which \<open>vmess://\<close> occurs once and \<open>trojan://\<close> twice, not at the start.\<close>

definition mixed_text :: string where
  "mixed_text = ''x vmess://a trojan://b trojan://c''"




text \<open>
  The SS link of the specification's first scenario, in the format of the decoder's
  docstring: \<open>ss://base64(method:password)@server:port#name\<close>.
\<close>

definition scenario_ss_url :: string where
  "scenario_ss_url = ''ss://YWVzLTI1Ni1nY206cGFzcw==@1.2.3.4:8388#MyNode''"



section \<open>Properties of the source registry\<close>




section \<open>Properties of the name cleaning\<close>

text \<open>
  C10. A non-empty name stays non-empty: when deleting the spellings of \<open>VIP\<close> and stripping
  the separators leaves nothing, the name is returned as it was.
\<close>

theorem clean_vip_chars_nonempty:
  assumes "nm \<noteq> []"
  shows "clean_vip_chars nm \<noteq> []
         \<and> (strip_chars '' -_|'' (remove_vip nm) = [] \<longrightarrow> clean_vip_chars nm = nm)"
  using assms by (simp add: clean_vip_chars_def Let_def)

lemmas clean_eval = clean_vip_chars_def remove_vip_def vip_patterns_def strip_chars_def
  str_replace.simps startswith_def Let_def

theorem clean_vip_chars_VIP_witness:
  "''VIP'' \<noteq> [] \<and> strip_chars '' -_|'' (remove_vip ''VIP'') = []
   \<and> clean_vip_chars ''VIP'' = ''VIP'' \<and> clean_vip_chars ''VIP'' \<noteq> []"
proof -
  have h: "''VIP'' \<noteq> []" by simp
  have e: "strip_chars '' -_|'' (remove_vip ''VIP'') = []"
    by (simp add: clean_eval)
  show ?thesis using clean_vip_chars_nonempty [OF h] e by simp
qed

section \<open>Properties of the merger\<close>

lemma key_generate_name [simp]: "unique_key (snd (generate_name lookup c)) = unique_key c"
  by (simp add: generate_name_def unique_key_def Let_def)

lemma key_overwrite_existing [simp]: "unique_key (overwrite_existing e c) = unique_key c"
  by (simp add: overwrite_existing_def unique_key_def Let_def)

lemma key_prepare_new [simp]: "unique_key (prepare_new c) = unique_key c"
  by (simp add: prepare_new_def unique_key_def)

lemma added_count_incoming [simp]: "added (count_incoming st c) = added st"
  by (simp add: count_incoming_def Let_def split: option.splits)

lemma updated_count_incoming [simp]: "updated (count_incoming st c) = updated st"
  by (simp add: count_incoming_def Let_def split: option.splits)

lemma total_count_incoming [simp]:
  "total_new_incoming (count_incoming st c) = total_new_incoming st"
  by (simp add: count_incoming_def Let_def split: option.splits)

lemma merge_one_counts:
  "added (snd (merge_one lookup ms c)) + updated (snd (merge_one lookup ms c))
     = added (snd ms) + updated (snd ms) + 1"
  by (simp add: merge_one_def Let_def split: option.splits)

lemma merge_one_total [simp]:
  "total_new_incoming (snd (merge_one lookup ms c)) = total_new_incoming (snd ms)"
  by (simp add: merge_one_def Let_def split: option.splits)

lemma merge_loop_counts:
  "added (snd (merge_loop lookup new ms)) + updated (snd (merge_loop lookup new ms))
     = added (snd ms) + updated (snd ms) + length new"
  unfolding merge_loop_def
  by (induction new arbitrary: ms) (simp_all add: merge_one_counts)

lemma merge_loop_total:
  "total_new_incoming (snd (merge_loop lookup new ms)) = total_new_incoming (snd ms)"
  unfolding merge_loop_def
  by (induction new arbitrary: ms) simp_all

text \<open>
  C9. Every incoming record is counted once, as added or as updated: the two counters of the
  returned statistics sum to the length of the incoming list, which is also what
  \<open>total_new_incoming\<close> holds.
\<close>

theorem merge_stats_partition:
  "added (snd (merge_proxies lookup existing new)) + updated (snd (merge_proxies lookup existing new))
     = length new
   \<and> total_new_incoming (snd (merge_proxies lookup existing new)) = length new"
  by (simp add: merge_proxies_def Let_def merge_loop_counts merge_loop_total initial_stats_def)

lemma set_update_subset: "set (AList.update k v m) \<subseteq> insert (k, v) (set m)"
  by (induction m) auto

lemma keys_update: "set (map fst (AList.update k v m)) = insert k (set (map fst m))"
  using dom_update [of k v m] by simp

lemma keyed_empty: "keyed []"
  by (simp add: keyed_def)

lemma keyed_update: "keyed m \<Longrightarrow> unique_key v = k \<Longrightarrow> keyed (AList.update k v m)"
  unfolding keyed_def using set_update_subset [of k v m]
  by (auto simp: distinct_update)

lemma keyed_values: "keyed m \<Longrightarrow> map unique_key (map snd m) = map fst m"
  by (simp add: keyed_def)

lemma index_existing_keyed_aux:
  "keyed m \<Longrightarrow> keyed (fold (\<lambda>p m. AList.update (unique_key p) p m) ps m)"
  by (induction ps arbitrary: m) (simp_all add: keyed_update)

lemma index_existing_keys_aux:
  "set (map fst (fold (\<lambda>p m. AList.update (unique_key p) p m) ps m))
     = set (map fst m) \<union> unique_key ` set ps"
  by (induction ps arbitrary: m) (simp_all add: keys_update del: set_map)

lemma index_existing_keyed: "keyed (index_existing ps)"
  by (simp add: index_existing_def index_existing_keyed_aux keyed_empty)

lemma index_existing_keys: "set (map fst (index_existing ps)) = unique_key ` set ps"
  by (simp add: index_existing_def index_existing_keys_aux del: set_map)

lemma merge_one_keyed: "keyed (fst ms) \<Longrightarrow> keyed (fst (merge_one lookup ms c))"
  by (simp add: merge_one_def Let_def keyed_update split: option.splits)

lemma merge_one_keys:
  "set (map fst (fst (merge_one lookup ms c))) = insert (unique_key c) (set (map fst (fst ms)))"
  by (simp add: merge_one_def Let_def keys_update split: option.splits del: set_map)

lemma merge_loop_keyed: "keyed (fst ms) \<Longrightarrow> keyed (fst (merge_loop lookup new ms))"
  unfolding merge_loop_def
  by (induction new arbitrary: ms) (simp_all add: merge_one_keyed)

lemma merge_loop_keys:
  "set (map fst (fst (merge_loop lookup new ms))) = set (map fst (fst ms)) \<union> unique_key ` set new"
  unfolding merge_loop_def
  by (induction new arbitrary: ms) (simp_all add: merge_one_keys del: set_map)

lemma merge_proxies_distinct: "distinct (map unique_key (fst (merge_proxies lookup S A)))"
proof -
  have "keyed (fst (merge_loop lookup A (index_existing S, initial_stats A)))"
    by (rule merge_loop_keyed) (simp add: index_existing_keyed)
  then have "distinct (map fst (fst (merge_loop lookup A (index_existing S, initial_stats A))))"
    and "map unique_key (map snd (fst (merge_loop lookup A (index_existing S, initial_stats A))))
           = map fst (fst (merge_loop lookup A (index_existing S, initial_stats A)))"
    by (simp_all add: keyed_def)
  then show ?thesis
    by (simp only: merge_proxies_def Let_def fst_conv)
qed

lemma merge_proxies_keys:
  "set (map unique_key (fst (merge_proxies lookup S A))) = unique_key ` set S \<union> unique_key ` set A"
proof -
  have k: "keyed (fst (merge_loop lookup A (index_existing S, initial_stats A)))"
    by (rule merge_loop_keyed) (simp add: index_existing_keyed)
  have "map unique_key (fst (merge_proxies lookup S A))
          = map fst (fst (merge_loop lookup A (index_existing S, initial_stats A)))"
    using keyed_values [OF k] by (simp add: merge_proxies_def Let_def)
  then show ?thesis
    by (simp add: merge_loop_keys index_existing_keys del: set_map)
qed

text \<open>
  C2. Merging \<open>A\<close> into \<open>S\<close> and then \<open>B\<close> into the result gives a list in which no key
  occurs twice and whose keys are exactly the keys occurring in \<open>S\<close>, \<open>A\<close> or \<open>B\<close>.
\<close>

theorem merge_key_stable:
  "distinct (map unique_key (fst (merge_proxies lookup (fst (merge_proxies lookup S A)) B)))
   \<and> set (map unique_key (fst (merge_proxies lookup (fst (merge_proxies lookup S A)) B)))
       = unique_key ` set S \<union> unique_key ` set A \<union> unique_key ` set B"
proof -
  have "unique_key ` set (fst (merge_proxies lookup S A)) = unique_key ` set S \<union> unique_key ` set A"
    using merge_proxies_keys [of lookup S A] by simp
  then show ?thesis
    using merge_proxies_keys [of lookup "fst (merge_proxies lookup S A)" B]
    by (simp add: merge_proxies_distinct del: set_map)
qed

lemma index_fold_other:
  "k \<notin> unique_key ` set ps \<Longrightarrow>
     map_of (fold (\<lambda>p m. AList.update (unique_key p) p m) ps m) k = map_of m k"
  by (induction ps arbitrary: m) (auto simp: update_conv')

lemma index_existing_last:
  "unique_key e \<notin> unique_key ` set E2 \<Longrightarrow>
     map_of (index_existing (E1 @ e # E2)) (unique_key e) = Some e"
  by (simp add: index_existing_def index_fold_other update_conv')

lemma merge_one_other:
  "unique_key c \<noteq> k \<Longrightarrow> map_of (fst (merge_one lookup ms c)) k = map_of (fst ms) k"
  by (simp add: merge_one_def Let_def update_conv' split: option.splits)

lemma merge_one_same:
  "map_of (fst ms) (unique_key c) = Some ex \<Longrightarrow>
     map_of (fst (merge_one lookup ms c)) (unique_key c)
       = Some (overwrite_existing ex (snd (generate_name lookup c)))"
  by (simp add: merge_one_def Let_def update_conv')

lemma name_overwrite_existing: "name (overwrite_existing ex c) = name ex"
  by (simp add: overwrite_existing_def Let_def)

lemma merge_loop_other:
  "k \<notin> unique_key ` set ps \<Longrightarrow> map_of (fst (merge_loop lookup ps ms)) k = map_of (fst ms) k"
  unfolding merge_loop_def
  by (induction ps arbitrary: ms) (auto simp: merge_one_other)

lemma merge_loop_name:
  "map_of (fst ms) k = Some ex \<Longrightarrow>
     \<exists>ex'. map_of (fst (merge_loop lookup ps ms)) k = Some ex' \<and> name ex' = name ex"
  unfolding merge_loop_def
proof (induction ps arbitrary: ms ex)
  case Nil
  then show ?case by simp
next
  case (Cons c ps)
  show ?case
  proof (cases "unique_key c = k")
    case True
    with Cons.prems have
      "map_of (fst (merge_one lookup ms c)) k = Some (overwrite_existing ex (snd (generate_name lookup c)))"
      using merge_one_same [of ms c ex lookup] by simp
    from Cons.IH [OF this] show ?thesis
      by (simp add: name_overwrite_existing)
  next
    case False
    with Cons.prems have "map_of (fst (merge_one lookup ms c)) k = Some ex"
      by (simp add: merge_one_other)
    from Cons.IH [OF this] show ?thesis by simp
  qed
qed

lemma merge_loop_append:
  "merge_loop lookup (N1 @ n # N2) ms = merge_loop lookup N2 (merge_one lookup (merge_loop lookup N1 ms) n)"
  by (simp add: merge_loop_def)

lemma merge_loop_last:
  assumes "map_of (fst ms) (unique_key n) = Some ex" and "unique_key n \<notin> unique_key ` set N2"
  shows "\<exists>ex'. name ex' = name ex \<and>
           map_of (fst (merge_loop lookup (N1 @ n # N2) ms)) (unique_key n)
             = Some (overwrite_existing ex' (snd (generate_name lookup n)))"
proof -
  from merge_loop_name [OF assms(1)] obtain ex' where
    ex': "map_of (fst (merge_loop lookup N1 ms)) (unique_key n) = Some ex'" "name ex' = name ex"
    by blast
  have "map_of (fst (merge_loop lookup (N1 @ n # N2) ms)) (unique_key n)
          = map_of (fst (merge_one lookup (merge_loop lookup N1 ms) n)) (unique_key n)"
    by (simp add: merge_loop_append merge_loop_other [OF assms(2)])
  also have "\<dots> = Some (overwrite_existing ex' (snd (generate_name lookup n)))"
    by (rule merge_one_same [OF ex'(1)])
  finally show ?thesis using ex'(2) by blast
qed

lemma keyed_records_at:
  "keyed m \<Longrightarrow> map_of m k = Some r \<Longrightarrow> records_at k (map snd m) = [r]"
proof (induction m)
  case Nil
  then show ?case by simp
next
  case (Cons kv m)
  from Cons.prems(1) have km: "keyed m" and kv: "unique_key (snd kv) = fst kv"
    and fresh: "fst kv \<notin> fst ` set m" and vals: "\<forall>q \<in> set m. unique_key (snd q) = fst q"
    by (auto simp: keyed_def)
  show ?case
  proof (cases "fst kv = k")
    case True
    with Cons.prems(2) have r: "snd kv = r" by (cases kv) simp
    have "unique_key (snd q) \<noteq> k" if "q \<in> set m" for q
    proof -
      from that have "fst q \<in> fst ` set m" by (rule imageI)
      with fresh True have "fst q \<noteq> k" by metis
      with vals that show ?thesis by simp
    qed
    then have "records_at k (map snd m) = []"
      by (simp add: records_at_def filter_empty_conv)
    with True kv r show ?thesis by (simp add: records_at_def)
  next
    case False
    with Cons.prems(2) have "map_of m k = Some r" by (cases kv) simp
    from Cons.IH [OF km this] False kv show ?thesis by (simp add: records_at_def)
  qed
qed

lemma map_of_None_keys: "map_of m k = None \<longleftrightarrow> k \<notin> set (map fst m)"
  by (simp add: map_of_eq_None_iff)

lemma merge_one_added:
  "added (snd (merge_one lookup ms c))
     = added (snd ms) + (if unique_key c \<in> set (map fst (fst ms)) then 0 else 1)"
  using map_of_None_keys [of "fst ms" "unique_key c"]
  by (auto simp add: merge_one_def Let_def split: option.splits)

lemma merge_loop_added:
  "added (snd (merge_loop lookup ps ms))
     = added (snd ms) + card (unique_key ` set ps - set (map fst (fst ms)))"
proof (induction ps arbitrary: ms)
  case Nil
  then show ?case by (simp add: merge_loop_def)
next
  case (Cons c ps)
  let ?K = "set (map fst (fst ms))"
  have step: "merge_loop lookup (c # ps) ms = merge_loop lookup ps (merge_one lookup ms c)"
    by (simp add: merge_loop_def)
  have keys: "set (map fst (fst (merge_one lookup ms c))) = insert (unique_key c) ?K"
    by (rule merge_one_keys)
  show ?case
  proof (cases "unique_key c \<in> ?K")
    case True
    then have "insert (unique_key c) ?K = ?K" by blast
    moreover from True have "unique_key ` set (c # ps) - ?K = unique_key ` set ps - ?K" by auto
    ultimately show ?thesis
      using True by (simp only: step Cons.IH keys merge_one_added) simp
  next
    case False
    have fin: "finite (unique_key ` set ps - insert (unique_key c) ?K)" by simp
    have "unique_key ` set (c # ps) - ?K
            = insert (unique_key c) (unique_key ` set ps - insert (unique_key c) ?K)"
      using False by auto
    then have "card (unique_key ` set (c # ps) - ?K)
                 = Suc (card (unique_key ` set ps - insert (unique_key c) ?K))"
      using fin by (simp del: set_map)
    then show ?thesis
      using False by (simp only: step Cons.IH keys merge_one_added) simp
  qed
qed

lemma merge_proxies_added:
  "added (snd (merge_proxies lookup existing incoming))
     = card (unique_key ` set incoming - unique_key ` set existing)"
  using index_existing_keys [of existing]
  by (simp add: merge_proxies_def Let_def merge_loop_added initial_stats_def del: set_map)

lemma length_filter_mono:
  "(\<And>x. x \<in> set xs \<Longrightarrow> P x \<Longrightarrow> Q x) \<Longrightarrow> length (filter P xs) \<le> length (filter Q xs)"
  by (induction xs) auto

lemma merge_proxies_updated_lower:
  assumes "k \<in> unique_key ` set existing"
  shows "length (records_at k incoming) \<le> updated (snd (merge_proxies lookup existing incoming))"
proof -
  let ?E = "unique_key ` set existing"
  let ?fresh = "filter (\<lambda>p. unique_key p \<notin> ?E) incoming"
  let ?known = "filter (\<lambda>p. \<not> unique_key p \<notin> ?E) incoming"
  have "unique_key ` set incoming - ?E = unique_key ` set ?fresh" by auto
  then have "card (unique_key ` set incoming - ?E) \<le> card (set ?fresh)"
    by (simp add: card_image_le del: set_filter)
  also have "\<dots> \<le> length ?fresh" by (rule card_length)
  finally have a: "added (snd (merge_proxies lookup existing incoming)) \<le> length ?fresh"
    by (simp add: merge_proxies_added)
  have "added (snd (merge_proxies lookup existing incoming))
          + updated (snd (merge_proxies lookup existing incoming)) = length incoming"
    by (simp add: merge_proxies_def Let_def merge_loop_counts initial_stats_def)
  moreover have "length ?fresh + length ?known = length incoming"
    by (rule sum_length_filter_compl)
  ultimately have "length ?known \<le> updated (snd (merge_proxies lookup existing incoming))"
    using a by linarith
  moreover have "length (records_at k incoming) \<le> length ?known"
    unfolding records_at_def using assms by (intro length_filter_mono) simp
  ultimately show ?thesis by linarith
qed

text \<open>
  C1, as the code has it. When the last stored record \<open>e\<close> with a key has a non-empty name
  and \<open>n\<close> is the last incoming record with that key, the merged list holds exactly one
  record at the key: it keeps the name of \<open>e\<close>; its address, port, protocol and source are
  those of \<open>n\<close>; its country code is that of \<open>n\<close>, looked up by address when \<open>n\<close> has
  none; its data is the data of \<open>n\<close> with the \<open>name\<close> entry, if there is one, set to the
  kept name. The key is not among the added ones (\<open>added\<close> counts the distinct incoming keys
  that are not stored), and every incoming record carrying it is counted in \<open>updated\<close>.
\<close>

theorem merge_keeps_existing_name:
  assumes "unique_key e \<notin> unique_key ` set E2"
      and "unique_key n = unique_key e"
      and "unique_key e \<notin> unique_key ` set N2"
      and "truthy_str (name e)"
  shows "\<exists>r. records_at (unique_key e) (fst (merge_proxies lookup (E1 @ e # E2) (N1 @ n # N2))) = [r]
           \<and> name r = name e
           \<and> ip r = ip n \<and> port r = port n \<and> protocol r = protocol n \<and> source r = source n
           \<and> country_code r = (if truthy_str (country_code n) then country_code n else lookup (ip n))
           \<and> data r = (if truthy_dict (data n) \<and> map_of (the (data n)) ''name'' \<noteq> None
                        then Some (AList.update ''name'' (pyval_of_name (name e)) (the (data n)))
                        else data n)
           \<and> added (snd (merge_proxies lookup (E1 @ e # E2) (N1 @ n # N2)))
               = card (unique_key ` set (N1 @ n # N2) - unique_key ` set (E1 @ e # E2))
           \<and> length (records_at (unique_key e) (N1 @ n # N2))
               \<le> updated (snd (merge_proxies lookup (E1 @ e # E2) (N1 @ n # N2)))"
proof -
  let ?ms = "(index_existing (E1 @ e # E2), initial_stats (N1 @ n # N2))"
  let ?out = "merge_loop lookup (N1 @ n # N2) ?ms"
  have start: "map_of (fst ?ms) (unique_key n) = Some e"
    using index_existing_last [OF assms(1), of E1] assms(2) by simp
  have "unique_key n \<notin> unique_key ` set N2" using assms(2,3) by simp
  from merge_loop_last [OF start this, of lookup N1] obtain ex' where
    nm: "name ex' = name e" and
    at: "map_of (fst ?out) (unique_key e) = Some (overwrite_existing ex' (snd (generate_name lookup n)))"
    using assms(2) by auto
  let ?r = "overwrite_existing ex' (snd (generate_name lookup n))"
  have "keyed (fst ?out)"
    by (rule merge_loop_keyed) (simp add: index_existing_keyed)
  from keyed_records_at [OF this at]
  have one: "records_at (unique_key e) (fst (merge_proxies lookup (E1 @ e # E2) (N1 @ n # N2))) = [?r]"
    by (simp add: merge_proxies_def Let_def)
  have fields: "name ?r = name e" "ip ?r = ip n" "port ?r = port n" "protocol ?r = protocol n"
      "source ?r = source n"
      "country_code ?r = (if truthy_str (country_code n) then country_code n else lookup (ip n))"
      "data ?r = (if truthy_dict (data n) \<and> map_of (the (data n)) ''name'' \<noteq> None
                  then Some (AList.update ''name'' (pyval_of_name (name e)) (the (data n)))
                  else data n)"
    using nm assms(4) by (auto simp add: overwrite_existing_def generate_name_def Let_def)
  have upd: "length (records_at (unique_key e) (N1 @ n # N2))
               \<le> updated (snd (merge_proxies lookup (E1 @ e # E2) (N1 @ n # N2)))"
    by (rule merge_proxies_updated_lower) simp
  show ?thesis
    using one fields upd merge_proxies_added [of lookup "E1 @ e # E2" "N1 @ n # N2"] by blast
qed


lemmas merge_eval = merge_proxies_def merge_loop_def merge_one_def index_existing_def
      initial_stats_def count_incoming_def generate_name_def overwrite_existing_def prepare_new_def
      unique_key_def str_of_int_def str_of_nat.simps records_at_def bump_def Let_def

text \<open>
  The specification's scenario: merging the stored record named \<open>Old\<close> with an unnamed
  incoming record on the same endpoint gives \<open>added = 0\<close>, \<open>updated = 1\<close> and keeps the name.
\<close>

theorem merge_scenario_5_witness:
  "unique_key scenario_existing \<notin> unique_key ` set []
   \<and> unique_key scenario_incoming = unique_key scenario_existing
   \<and> truthy_str (name scenario_existing)
   \<and> (\<exists>r. records_at (unique_key scenario_existing)
              (fst (merge_proxies no_lookup [scenario_existing] [scenario_incoming])) = [r]
          \<and> name r = Some ''Old'')
   \<and> map name (fst (merge_proxies no_lookup [scenario_existing] [scenario_incoming])) = [Some ''Old'']
   \<and> added (snd (merge_proxies no_lookup [scenario_existing] [scenario_incoming])) = 0
   \<and> updated (snd (merge_proxies no_lookup [scenario_existing] [scenario_incoming])) = 1"
proof -
  have h1: "unique_key scenario_existing \<notin> unique_key ` set []" by simp
  have h2: "unique_key scenario_incoming = unique_key scenario_existing"
    by (simp add: unique_key_def scenario_existing_def scenario_incoming_def)
  have h4: "truthy_str (name scenario_existing)"
    by (simp add: scenario_existing_def)
  from merge_keeps_existing_name [where e = scenario_existing and n = scenario_incoming
      and ?E1.0 = "[]" and ?E2.0 = "[]" and ?N1.0 = "[]" and ?N2.0 = "[]" and lookup = no_lookup,
      OF h1 h2 h1 h4]
  obtain r where "records_at (unique_key scenario_existing)
      (fst (merge_proxies no_lookup [scenario_existing] [scenario_incoming])) = [r]"
    and "name r = name scenario_existing"
    by auto
  then have kept: "\<exists>r. records_at (unique_key scenario_existing)
              (fst (merge_proxies no_lookup [scenario_existing] [scenario_incoming])) = [r]
          \<and> name r = Some ''Old''"
    by (simp add: scenario_existing_def)
  have ev: "map name (fst (merge_proxies no_lookup [scenario_existing] [scenario_incoming])) = [Some ''Old'']"
    "added (snd (merge_proxies no_lookup [scenario_existing] [scenario_incoming])) = 0"
    "updated (snd (merge_proxies no_lookup [scenario_existing] [scenario_incoming])) = 1"
    by (simp_all add: merge_eval scenario_existing_def scenario_incoming_def no_lookup_def)
  show ?thesis using h1 h2 h4 kept ev by blast
qed

text \<open>
  C1 as stated speaks of any stored and any incoming record with the key. With two incoming
  records on one endpoint the merged record has the protocol of the second, not of the first;
  with two stored records on one endpoint, the first named and the second unnamed, the merged
  record is unnamed.
\<close>

theorem merge_duplicate_key_counterexample:
  "first_incoming \<in> set [first_incoming, second_incoming]
   \<and> scenario_existing \<in> set [scenario_existing]
   \<and> unique_key first_incoming = unique_key scenario_existing
   \<and> truthy_str (name scenario_existing)
   \<and> protocol first_incoming = Some SS
   \<and> map protocol (records_at (unique_key scenario_existing)
        (fst (merge_proxies no_lookup [scenario_existing] [first_incoming, second_incoming])))
       = [Some TROJAN]
   \<and> scenario_existing \<in> set [scenario_existing, unnamed_existing]
   \<and> unique_key scenario_incoming = unique_key scenario_existing
   \<and> name scenario_existing = Some ''Old''
   \<and> map name (records_at (unique_key scenario_existing)
        (fst (merge_proxies no_lookup [scenario_existing, unnamed_existing] [scenario_incoming])))
       = [Some []]"
  by (simp add: merge_eval scenario_existing_def scenario_incoming_def unnamed_existing_def
      first_incoming_def second_incoming_def no_lookup_def)

section \<open>Properties of the base64 normalisation and of the detection\<close>

lemma try_methods_none:
  "list_all (\<lambda>decode_method. attempt decode_method s = None) ms \<Longrightarrow> try_methods ms s = s"
  by (induction ms) simp_all

text \<open>
  C8, as the code has it. When no attempt qualifies, the result is the input without its
  leading and trailing whitespace; it is the input itself when the input has none.
\<close>

theorem try_base64_decode_passthrough:
  assumes "no_attempt_qualifies content"
  shows "try_base64_decode content = py_strip content
         \<and> (py_strip content = content \<longrightarrow> try_base64_decode content = content)"
proof -
  from assms have "try_methods decode_methods (py_strip content) = py_strip content"
    by (simp add: no_attempt_qualifies_def try_methods_none)
  then have "try_base64_decode content = py_strip content"
    by (simp only: try_base64_decode_def)
  then show ?thesis by auto
qed

theorem try_base64_decode_garbage_witness:
  "no_attempt_qualifies ''garbage text'' \<and> py_strip ''garbage text'' = ''garbage text''
   \<and> try_base64_decode ''garbage text'' = ''garbage text''"
proof -
  have h: "no_attempt_qualifies ''garbage text''" by code_simp
  have s: "py_strip ''garbage text'' = ''garbage text''" by code_simp
  show ?thesis using try_base64_decode_passthrough [OF h] h s by simp
qed

text \<open>
  C8 as stated fails on an input with surrounding whitespace: no attempt qualifies on a
  space followed by \<open>a\<close>, and the result is \<open>a\<close> without the space.
\<close>

theorem try_base64_decode_space_counterexample:
  "no_attempt_qualifies '' a'' \<and> try_base64_decode '' a'' = ''a'' \<and> try_base64_decode '' a'' \<noteq> '' a''"
  by code_simp




text \<open>
  C4. The text reaches the frequency scan: normalisation leaves it as it is, no prefix
  matches and it is not YAML. \<open>trojan://\<close> occurs twice and \<open>vmess://\<close> once, and the
  detector answers VMess, the first protocol of the priority order with a positive count,
  not the protocol with the highest count.
\<close>

theorem detect_protocol_mixed_text:
  "try_base64_decode mixed_text = mixed_text
   \<and> classify mixed_text = frequency_scan mixed_text
   \<and> count_of (protocol_counts mixed_text) TROJAN = 2
   \<and> count_of (protocol_counts mixed_text) VMESS = 1
   \<and> max_count_of (protocol_counts mixed_text) = 2
   \<and> detect_protocol mixed_text = VMESS"
  by code_simp

section \<open>Properties of the decoders\<close>

text \<open>
  C3. On the link of the first scenario the SS decoder returns nothing: it base64-decodes
  the whole text before the fragment, the decoding ends at the padding in front of \<open>@\<close>, and
  the decoded text \<open>aes-256-gcm:pass\<close> has no \<open>@\<close>.
\<close>

theorem parse_ss_url_scenario_1:
  "decode_text b64decode (''YWVzLTI1Ni1nY206cGFzcw==@1.2.3.4:8388'' @ ''=='') = Some ''aes-256-gcm:pass''
   \<and> parse_ss_url scenario_ss_url = None"
  by code_simp






end
